theory Spec2Isabelle
  imports Main
begin

text \<open>
  A model of the React hooks of use-stripe-payment-request (\<^verbatim>\<open>src/index.ts\<close>):
  \<^verbatim>\<open>usePaymentRequest\<close>, which creates the payment request and keeps the open state,
  the handler \<^verbatim>\<open>usePaymentRequestEventHandler\<close> registers for an event, and the
  payment and shipping hooks built on it. What React keeps between renders is a record;
  a render maps that record and the log of the calls made on Stripe's objects to new
  ones.
\<close>

section \<open>JavaScript values as the hooks see them\<close>

text \<open>
  The hooks of \<^verbatim>\<open>index.ts\<close> compare their dependencies with \<^verbatim>\<open>Object.is\<close>:
  primitives by value, arrays and objects by identity. An array or object is therefore
  a pair of its identity and its content; \<^verbatim>\<open>undefined\<close> is \<open>None\<close>.
\<close>

type_synonym ref = nat

datatype 'a obj = Obj (ref_of: ref) (val_of: 'a)

datatype dep = DUndefined | DNull | DBool bool | DString string | DObject ref | DFunction nat

definition object_is :: "dep \<Rightarrow> dep \<Rightarrow> bool" where
  "object_is a b = (a = b)"

text \<open>React's comparison of two dependency lists, index by index.\<close>

fun areHookInputsEqual :: "dep list \<Rightarrow> dep list \<Rightarrow> bool" where
  "areHookInputsEqual (a # as) (b # bs) = (object_is a b \<and> areHookInputsEqual as bs)"
| "areHookInputsEqual _ _ = True"

definition dep_of_bool :: "bool option \<Rightarrow> dep" where
  "dep_of_bool b = (case b of None \<Rightarrow> DUndefined | Some v \<Rightarrow> DBool v)"

definition dep_of_obj :: "'a obj option \<Rightarrow> dep" where
  "dep_of_obj x = (case x of None \<Rightarrow> DUndefined | Some v \<Rightarrow> DObject (ref_of v))"

definition dep_of_ref :: "ref option \<Rightarrow> dep" where
  "dep_of_ref x = (case x of None \<Rightarrow> DUndefined | Some r \<Rightarrow> DObject r)"

definition dep_of_string :: "string option \<Rightarrow> dep" where
  "dep_of_string x = (case x of None \<Rightarrow> DUndefined | Some s \<Rightarrow> DString s)"

section \<open>The data of a payment request\<close>

record payment_item =
  amount :: int
  label :: string
  pending :: "bool option"

record shipping_option =
  so_id :: string
  so_label :: string
  so_detail :: string
  so_amount :: int

text \<open>The first argument of \<^verbatim>\<open>usePaymentRequest\<close>: \<^verbatim>\<open>Stripe | undefined | null\<close>.\<close>

datatype stripe = StripeUndefined | StripeNull | Stripe ref

definition dep_of_stripe :: "stripe \<Rightarrow> dep" where
  "dep_of_stripe s =
     (case s of StripeUndefined \<Rightarrow> DUndefined | StripeNull \<Rightarrow> DNull | Stripe r \<Rightarrow> DObject r)"

text \<open>The caller's \<^verbatim>\<open>PaymentRequestOptions\<close>, destructured by \<^verbatim>\<open>usePaymentRequest\<close>.\<close>

record options =
  country :: string
  currency :: string
  disableWallets :: "string list obj option"
  displayItems :: "payment_item list obj option"
  requestPayerEmail :: "bool option"
  requestPayerName :: "bool option"
  requestPayerPhone :: "bool option"
  requestShipping :: "bool option"
  shippingOptions :: "shipping_option list obj option"
  total :: "payment_item obj"

text \<open>The object literal handed to \<^verbatim>\<open>stripe.paymentRequest\<close>.\<close>

record ctor_args =
  arg_country :: string
  arg_currency :: string
  arg_disableWallets :: "string list obj option"
  arg_displayItems :: "payment_item list"
  arg_requestPayerEmail :: "bool option"
  arg_requestPayerName :: "bool option"
  arg_requestPayerPhone :: "bool option"
  arg_requestShipping :: "bool option"
  arg_shippingOptions :: "shipping_option list"
  arg_total :: payment_item

text \<open>The object literal handed to \<^verbatim>\<open>paymentRequest.update\<close>.\<close>

record update_args =
  upd_currency :: string
  upd_displayItems :: "payment_item list obj option"
  upd_shippingOptions :: "shipping_option list obj option"
  upd_total :: "payment_item obj"

text \<open>
  The object literal handed to an event's \<^verbatim>\<open>updateWith\<close>: the status, and the
  three data fields when they were spread into it.
\<close>

record details_data =
  det_displayItems :: "payment_item list obj option"
  det_shippingOptions :: "shipping_option list obj option"
  det_total :: "payment_item obj option"

record update_details =
  det_status :: string
  det_data :: "details_data option"

text \<open>
  Every call the hooks make on an external collaborator, in the order made: the
  factory \<^verbatim>\<open>stripe.paymentRequest\<close>, and the methods of the payment request it
  returned, and the \<^verbatim>\<open>updateWith\<close> or \<^verbatim>\<open>complete\<close> of an event (named by the
  event's identity). A listener is named by the number of the closure that was
  registered.
\<close>

datatype call =
    PaymentRequestCall ref ctor_args
  | IsShowing ref
  | Update ref update_args
  | Show ref
  | Abort ref
  | On ref string nat
  | Off ref string nat
  | UpdateWith ref update_details
  | Complete ref string

section \<open>usePaymentRequest\<close>

text \<open>
  What the hook cannot see into: which payment request the factory returns (for a
  stripe object, the arguments and the number of earlier constructions), and whether
  the optional \<^verbatim>\<open>abort\<close> method exists on it. What \<^verbatim>\<open>isShowing()\<close> answers
  changes with time and is an argument of the call that asks.
\<close>

record environment =
  factory :: "ref \<Rightarrow> ctor_args \<Rightarrow> nat \<Rightarrow> ref"
  has_abort :: "ref \<Rightarrow> bool"

datatype props = Props stripe options

definition memo_deps_of :: "props \<Rightarrow> dep list" where
  "memo_deps_of p =
     (case p of Props s opts \<Rightarrow>
        [DString (country opts),
         dep_of_obj (disableWallets opts),
         dep_of_bool (requestPayerEmail opts),
         dep_of_bool (requestPayerName opts),
         dep_of_bool (requestPayerPhone opts),
         dep_of_bool (requestShipping opts),
         dep_of_stripe s])"

definition ctor_args_of :: "options \<Rightarrow> ctor_args" where
  "ctor_args_of opts =
     \<lparr> arg_country = country opts,
       arg_currency = ''usd'',
       arg_disableWallets = disableWallets opts,
       arg_displayItems = [],
       arg_requestPayerEmail = requestPayerEmail opts,
       arg_requestPayerName = requestPayerName opts,
       arg_requestPayerPhone = requestPayerPhone opts,
       arg_requestShipping = requestShipping opts,
       arg_shippingOptions = [],
       arg_total = \<lparr> amount = 0, label = ''Total'', pending = Some True \<rparr> \<rparr>"

fun ctor_args_in :: "call list \<Rightarrow> ctor_args list" where
  "ctor_args_in [] = []"
| "ctor_args_in (PaymentRequestCall r a # cs) = a # ctor_args_in cs"
| "ctor_args_in (c # cs) = ctor_args_in cs"

definition ctor_count :: "call list \<Rightarrow> nat" where
  "ctor_count cs = length (ctor_args_in cs)"

text \<open>
  The factory of \<^verbatim>\<open>useMemo\<close>: \<^verbatim>\<open>stripe?.paymentRequest({...})\<close>. With no stripe
  object the optional chain yields \<^verbatim>\<open>undefined\<close> and calls nothing.
\<close>

definition construct :: "environment \<Rightarrow> props \<Rightarrow> call list \<Rightarrow> ref option \<times> call list" where
  "construct env p log =
     (case p of
        Props (Stripe r) opts \<Rightarrow>
          (Some (factory env r (ctor_args_of opts) (ctor_count log)),
           [PaymentRequestCall r (ctor_args_of opts)])
      | Props _ opts \<Rightarrow> (None, []))"

text \<open>
  The state \<^verbatim>\<open>useAsync\<close> (of the library react-use) hands back for the probe
  \<^verbatim>\<open>(await paymentRequest?.canMakePayment()) ?? undefined\<close>. The resolved value is an
  object of wallet flags, or \<^verbatim>\<open>undefined\<close> where the capability answered \<^verbatim>\<open>null\<close>
  or is absent. The hook only reads it, so it is an input of every render.
\<close>

record async_state =
  probe_loading :: bool
  probe_value :: "(string \<times> bool) list option"
  probe_error :: "string option"

text \<open>
  The memory React keeps for one mounted \<^verbatim>\<open>usePaymentRequest\<close>: the memoised payment
  request with its dependencies, the \<^verbatim>\<open>open\<close> state cell (\<open>opened\<close>), and for the effect that
  listens to \<^verbatim>\<open>cancel\<close> its dependencies and what its cleanup closure captured (the
  payment request and the handler). \<open>closures\<close> counts the handlers created so far and
  numbers the next one. The setter \<^verbatim>\<open>setOpenRaw\<close> has one identity for the life of the
  component, \<open>DFunction 0\<close>.
\<close>

record hook_state =
  memo_deps :: "dep list"
  paymentRequest :: "ref option"
  opened :: bool
  cancel_deps :: "dep list"
  cancel_sub :: "ref option \<times> nat"
  closures :: nat

definition cancel_effect :: "ref option \<Rightarrow> nat \<Rightarrow> call list" where
  "cancel_effect pr k = (case pr of None \<Rightarrow> [] | Some h \<Rightarrow> [On h ''cancel'' k])"

definition cancel_cleanup :: "ref option \<times> nat \<Rightarrow> call list" where
  "cancel_cleanup c = (case c of (None, k) \<Rightarrow> [] | (Some h, k) \<Rightarrow> [Off h ''cancel'' k])"

definition cancel_deps_of :: "ref option \<Rightarrow> dep list" where
  "cancel_deps_of pr = [dep_of_ref pr, DFunction 0]"

text \<open>The first render and its effects: the log starts empty.\<close>

definition mount :: "environment \<Rightarrow> props \<Rightarrow> hook_state \<times> call list" where
  "mount env p =
     (case construct env p [] of (pr, made) \<Rightarrow>
        (\<lparr> memo_deps = memo_deps_of p,
           paymentRequest = pr,
           opened = False,
           cancel_deps = cancel_deps_of pr,
           cancel_sub = (pr, 0),
           closures = 1 \<rparr>,
         made @ cancel_effect pr 0))"

text \<open>
  A later render with new props. \<^verbatim>\<open>useMemo\<close> runs its factory again only when a
  dependency changed; the effect runs the previous cleanup and then its body again
  only when the payment request (or the setter) changed.
\<close>

definition use_memo ::
  "environment \<Rightarrow> props \<Rightarrow> hook_state \<Rightarrow> call list \<Rightarrow> dep list \<times> ref option \<times> call list" where
  "use_memo env p st log =
     (if areHookInputsEqual (memo_deps_of p) (memo_deps st)
      then (memo_deps st, paymentRequest st, [])
      else (case construct env p log of (pr, made) \<Rightarrow> (memo_deps_of p, pr, made)))"

definition use_cancel_effect :: "ref option \<Rightarrow> hook_state \<Rightarrow> hook_state \<times> call list" where
  "use_cancel_effect pr st =
     (if areHookInputsEqual (cancel_deps_of pr) (cancel_deps st)
      then (st, [])
      else (st \<lparr> cancel_deps := cancel_deps_of pr,
                 cancel_sub := (pr, closures st),
                 closures := Suc (closures st) \<rparr>,
            cancel_cleanup (cancel_sub st) @ cancel_effect pr (closures st)))"

definition rerender ::
  "environment \<Rightarrow> props \<Rightarrow> hook_state \<times> call list \<Rightarrow> hook_state \<times> call list" where
  "rerender env p w =
     (case w of (st, log) \<Rightarrow>
        (case use_memo env p st log of (deps, pr, made) \<Rightarrow>
           (case use_cancel_effect pr (st \<lparr> memo_deps := deps, paymentRequest := pr \<rparr>)
            of (st', effects) \<Rightarrow> (st', log @ made @ effects))))"

definition unmount :: "hook_state \<times> call list \<Rightarrow> call list" where
  "unmount w = (case w of (st, log) \<Rightarrow> log @ cancel_cleanup (cancel_sub st))"

text \<open>
  The listeners a log of \<^verbatim>\<open>on\<close> and \<^verbatim>\<open>off\<close> calls leaves registered on the
  payment requests, as an event emitter keeps them.
\<close>

definition listeners_step :: "(ref \<times> string \<times> nat) list \<Rightarrow> call \<Rightarrow> (ref \<times> string \<times> nat) list" where
  "listeners_step ls c =
     (case c of
        On h n k \<Rightarrow> ls @ [(h, n, k)]
      | Off h n k \<Rightarrow> remove1 (h, n, k) ls
      | _ \<Rightarrow> ls)"

definition listeners :: "call list \<Rightarrow> (ref \<times> string \<times> nat) list" where
  "listeners log = foldl listeners_step [] log"

subsection \<open>The toggle\<close>

text \<open>
  \<^verbatim>\<open>setOpen\<close> is a \<^verbatim>\<open>useCallback\<close> whose dependency list names every variable it
  captures, so the closure a render returns holds that render's values.
\<close>

record closure =
  c_canMakePayment :: async_state
  c_currency :: string
  c_displayItems :: "payment_item list obj option"
  c_open :: bool
  c_paymentRequest :: "ref option"
  c_shippingOptions :: "shipping_option list obj option"
  c_total :: "payment_item obj"

definition setOpen_of :: "async_state \<Rightarrow> options \<Rightarrow> hook_state \<Rightarrow> closure" where
  "setOpen_of probe opts st =
     \<lparr> c_canMakePayment = probe,
       c_currency = currency opts,
       c_displayItems = displayItems opts,
       c_open = opened st,
       c_paymentRequest = paymentRequest st,
       c_shippingOptions = shippingOptions opts,
       c_total = total opts \<rparr>"

text \<open>\<^verbatim>\<open>SetStateAction<boolean>\<close>: a boolean, or a function of the previous one.\<close>

datatype open_action = Literal bool | Updater "bool \<Rightarrow> bool"

definition newOpen :: "closure \<Rightarrow> open_action \<Rightarrow> bool" where
  "newOpen c a = (case a of Updater f \<Rightarrow> f (c_open c) | Literal b \<Rightarrow> b)"

text \<open>\<^verbatim>\<open>Boolean(paymentRequest?.isShowing())\<close>, and the call it makes.\<close>

definition showing :: "(ref \<Rightarrow> bool) \<Rightarrow> closure \<Rightarrow> bool" where
  "showing isShowing c = (case c_paymentRequest c of None \<Rightarrow> False | Some h \<Rightarrow> isShowing h)"

definition showing_calls :: "closure \<Rightarrow> call list" where
  "showing_calls c = (case c_paymentRequest c of None \<Rightarrow> [] | Some h \<Rightarrow> [IsShowing h])"

text \<open>
  What one call of a handler did: the value it gave \<^verbatim>\<open>setOpenRaw\<close>, if it called
  it, and its calls on the payment request.
\<close>

record handled =
  set_open_raw :: "bool option"
  cap_calls :: "call list"

definition setOpen ::
  "environment \<Rightarrow> (ref \<Rightarrow> bool) \<Rightarrow> closure \<Rightarrow> open_action \<Rightarrow> handled" where
  "setOpen env isShowing c a =
     (if probe_value (c_canMakePayment c) = None then \<lparr> set_open_raw = None, cap_calls = [] \<rparr>
      else if newOpen c a = c_open c then \<lparr> set_open_raw = None, cap_calls = [] \<rparr>
      else if newOpen c a = showing isShowing c
        then \<lparr> set_open_raw = None, cap_calls = showing_calls c \<rparr>
      else
        \<lparr> set_open_raw = Some (newOpen c a),
          cap_calls = showing_calls c @
            (case c_paymentRequest c of
               None \<Rightarrow> []
             | Some h \<Rightarrow>
                 if newOpen c a
                 then [Update h \<lparr> upd_currency = c_currency c,
                                 upd_displayItems = c_displayItems c,
                                 upd_shippingOptions = c_shippingOptions c,
                                 upd_total = c_total c \<rparr>,
                       Show h]
                 else if has_abort env h then [Abort h] else []) \<rparr>)"

text \<open>The listener of \<^verbatim>\<open>cancel\<close>: \<^verbatim>\<open>() => setOpenRaw(false)\<close>.\<close>

definition cancel_handler :: handled where
  "cancel_handler = \<lparr> set_open_raw = Some False, cap_calls = [] \<rparr>"

text \<open>The state cell after a handler ran.\<close>

definition commit :: "handled \<Rightarrow> hook_state \<Rightarrow> hook_state" where
  "commit r st = (case set_open_raw r of None \<Rightarrow> st | Some b \<Rightarrow> st \<lparr> opened := b \<rparr>)"

definition is_mutation :: "call \<Rightarrow> bool" where
  "is_mutation c = (case c of Update h u \<Rightarrow> True | Show h \<Rightarrow> True | Abort h \<Rightarrow> True | _ \<Rightarrow> False)"

subsection \<open>The life of one mounted hook\<close>

text \<open>
  After the mount, a component is rendered again with new props, its \<^verbatim>\<open>setOpen\<close>
  is called (with the probe and the options of the render that made the closure, and
  the answers of \<^verbatim>\<open>isShowing\<close> at that moment), or a payment request fires
  \<^verbatim>\<open>cancel\<close> and calls the listeners registered on it for that event.
\<close>

datatype action =
    Rerender props
  | SetOpen "ref \<Rightarrow> bool" async_state options open_action
  | Cancel ref

definition dispatch :: "call list \<Rightarrow> ref \<Rightarrow> string \<Rightarrow> nat list" where
  "dispatch log h n = map (\<lambda>l. snd (snd l)) (filter (\<lambda>l. fst l = h \<and> fst (snd l) = n) (listeners log))"

definition handle :: "handled \<Rightarrow> hook_state \<times> call list \<Rightarrow> hook_state \<times> call list" where
  "handle r w = (case w of (st, log) \<Rightarrow> (commit r st, log @ cap_calls r))"

definition step :: "environment \<Rightarrow> action \<Rightarrow> hook_state \<times> call list \<Rightarrow> hook_state \<times> call list" where
  "step env a w =
     (case a of
        Rerender p \<Rightarrow> rerender env p w
      | SetOpen isShowing probe opts oa \<Rightarrow>
          handle (setOpen env isShowing (setOpen_of probe opts (fst w)) oa) w
      | Cancel h \<Rightarrow> fold (\<lambda>k. handle cancel_handler) (dispatch (snd w) h ''cancel'') w)"

fun exec :: "environment \<Rightarrow> action list \<Rightarrow> hook_state \<times> call list \<Rightarrow> hook_state \<times> call list" where
  "exec env [] w = w"
| "exec env (a # as) w = exec env as (step env a w)"

text \<open>The props of the latest render.\<close>

fun latest :: "props \<Rightarrow> action list \<Rightarrow> props" where
  "latest p [] = p"
| "latest p (Rerender q # as) = latest q as"
| "latest p (a # as) = latest p as"

definition stripe_present :: "props \<Rightarrow> bool" where
  "stripe_present p = (case p of Props (Stripe r) opts \<Rightarrow> True | Props _ opts \<Rightarrow> False)"

text \<open>
  One of the parameters that \<^verbatim>\<open>useMemo\<close> lists differs between two renders as
  \<^verbatim>\<open>Object.is\<close> sees it: strings and booleans by value, the array and the stripe
  object by identity.
\<close>

definition identity_changed :: "props \<Rightarrow> props \<Rightarrow> bool" where
  "identity_changed p q =
     (case (p, q) of (Props s opts, Props s' opts') \<Rightarrow>
        country opts' \<noteq> country opts
      \<or> map_option ref_of (disableWallets opts') \<noteq> map_option ref_of (disableWallets opts)
      \<or> requestPayerEmail opts' \<noteq> requestPayerEmail opts
      \<or> requestPayerName opts' \<noteq> requestPayerName opts
      \<or> requestPayerPhone opts' \<noteq> requestPayerPhone opts
      \<or> requestShipping opts' \<noteq> requestShipping opts
      \<or> s' \<noteq> s)"

definition options_of :: "props \<Rightarrow> options" where
  "options_of p = (case p of Props s opts \<Rightarrow> opts)"

section \<open>Promises and the race against the timer\<close>

text \<open>
  A promise is described by how it settles: never, fulfilled with a value, or
  rejected, at an instant counted in milliseconds from the moment the handler was
  called. A responder returns \<^verbatim>\<open>MaybePromise<Status>\<close>, a plain status or a promise
  of one, or throws.
\<close>

datatype 'a promise = NeverSettles | FulfilsAt nat 'a | RejectsAt nat

datatype 'a returned = Plain 'a | Promised "'a promise"

datatype 'a invocation = Throws | Returns "'a returned"

text \<open>\<^verbatim>\<open>Promise.resolve\<close>, which \<^verbatim>\<open>Promise.any\<close> applies to each of its inputs.\<close>

definition to_promise :: "'a returned \<Rightarrow> 'a promise" where
  "to_promise r = (case r of Plain v \<Rightarrow> FulfilsAt 0 v | Promised p \<Rightarrow> p)"

text \<open>
  \<^verbatim>\<open>Promise.any\<close>: fulfilled with the value of the input that fulfils first (of two
  at the same instant, the earlier in the array); rejected only once every input has
  rejected; pending for ever otherwise. A rejected input is passed over.
\<close>

fun first_fulfilled :: "'a promise list \<Rightarrow> (nat \<times> 'a) option" where
  "first_fulfilled [] = None"
| "first_fulfilled (FulfilsAt t v # ps) =
     (case first_fulfilled ps of
        None \<Rightarrow> Some (t, v)
      | Some (t', v') \<Rightarrow> if t \<le> t' then Some (t, v) else Some (t', v'))"
| "first_fulfilled (p # ps) = first_fulfilled ps"

fun all_rejected :: "'a promise list \<Rightarrow> nat option" where
  "all_rejected [] = Some 0"
| "all_rejected (RejectsAt t # ps) = map_option (max t) (all_rejected ps)"
| "all_rejected (p # ps) = None"

definition promise_any :: "'a promise list \<Rightarrow> 'a promise" where
  "promise_any ps =
     (case first_fulfilled ps of
        Some (t, v) \<Rightarrow> FulfilsAt t v
      | None \<Rightarrow> (case all_rejected ps of Some t \<Rightarrow> RejectsAt t | None \<Rightarrow> NeverSettles))"

text \<open>An \<^verbatim>\<open>async\<close> function always returns a promise; a throw in its body rejects it.\<close>

definition async_fn :: "'a invocation \<Rightarrow> 'a invocation" where
  "async_fn i =
     (case i of
        Throws \<Rightarrow> Returns (Promised (RejectsAt 0))
      | Returns r \<Rightarrow> Returns (Promised (to_promise r)))"

section \<open>usePaymentRequestEventHandler\<close>

text \<open>
  The \<^verbatim>\<open>async\<close> handler that the effect registers. Its result is the promise the
  handler itself returns, and the calls of \<^verbatim>\<open>callback\<close> it made, each with its
  instant; \<^verbatim>\<open>callback(status)\<close> is the value \<open>getCallback event status\<close>.
\<close>

record 'c handler_run =
  settled :: "unit promise"
  callbacks :: "(nat \<times> 'c) list"

definition handler ::
  "('e \<Rightarrow> string \<Rightarrow> 'c) \<Rightarrow> ('e \<Rightarrow> string invocation) \<Rightarrow> 'e \<Rightarrow> 'c handler_run" where
  "handler getCallback onEvent event =
     (case onEvent event of
        Throws \<Rightarrow> \<lparr> settled = RejectsAt 0, callbacks = [] \<rparr>
      | Returns r \<Rightarrow>
          (case promise_any [to_promise r, FulfilsAt 2000 ''fail''] of
             FulfilsAt t status \<Rightarrow>
               \<lparr> settled = FulfilsAt t (), callbacks = [(t, getCallback event status)] \<rparr>
           | RejectsAt t \<Rightarrow> \<lparr> settled = RejectsAt t, callbacks = [] \<rparr>
           | NeverSettles \<Rightarrow> \<lparr> settled = NeverSettles, callbacks = [] \<rparr>))"

text \<open>
  The effect. A function given to a hook has an identity (which the dependency list
  compares) and a behaviour. The cleanup the effect returns either does nothing or
  calls \<^verbatim>\<open>off\<close> with what it captured.
\<close>

datatype cleanup = Nothing | Unsubscribe "ref option" string nat

record ('e, 'c) event_hook =
  eh_deps :: "dep list"
  eh_cleanup :: cleanup
  eh_handler :: "(nat \<times> ('e \<Rightarrow> 'c handler_run)) option"
  eh_closures :: nat

datatype ('e, 'c) event_props =
  EventProps string "ref option" "('e \<Rightarrow> string \<Rightarrow> 'c) obj" "('e \<Rightarrow> string invocation) obj option"

definition responder_of :: "('e, 'c) event_props \<Rightarrow> ('e \<Rightarrow> string invocation) obj option" where
  "responder_of p = (case p of EventProps eventName pr getCallback onEvent \<Rightarrow> onEvent)"

definition event_deps_of :: "('e, 'c) event_props \<Rightarrow> dep list" where
  "event_deps_of p =
     (case p of EventProps eventName pr getCallback onEvent \<Rightarrow>
        [DString eventName,
         DFunction (ref_of getCallback),
         (case onEvent of None \<Rightarrow> DUndefined | Some f \<Rightarrow> DFunction (ref_of f)),
         dep_of_ref pr])"

definition event_effect ::
  "('e, 'c) event_props \<Rightarrow> nat \<Rightarrow>
   cleanup \<times> (nat \<times> ('e \<Rightarrow> 'c handler_run)) option \<times> call list" where
  "event_effect p k =
     (case p of EventProps eventName pr getCallback onEvent \<Rightarrow>
        (case onEvent of
           None \<Rightarrow> (Nothing, None, [])
         | Some f \<Rightarrow>
             (Unsubscribe pr eventName k,
              Some (k, handler (val_of getCallback) (val_of f)),
              (case pr of None \<Rightarrow> [] | Some h \<Rightarrow> [On h eventName k]))))"

definition run_cleanup :: "cleanup \<Rightarrow> call list" where
  "run_cleanup c =
     (case c of
        Nothing \<Rightarrow> []
      | Unsubscribe pr eventName k \<Rightarrow>
          (case pr of None \<Rightarrow> [] | Some h \<Rightarrow> [Off h eventName k]))"

definition event_mount :: "('e, 'c) event_props \<Rightarrow> ('e, 'c) event_hook \<times> call list" where
  "event_mount p =
     (case event_effect p 0 of (c, h, calls) \<Rightarrow>
        (\<lparr> eh_deps = event_deps_of p, eh_cleanup = c, eh_handler = h, eh_closures = 1 \<rparr>, calls))"

definition event_rerender ::
  "('e, 'c) event_props \<Rightarrow> ('e, 'c) event_hook \<times> call list \<Rightarrow> ('e, 'c) event_hook \<times> call list" where
  "event_rerender p w =
     (case w of (st, log) \<Rightarrow>
        if areHookInputsEqual (event_deps_of p) (eh_deps st) then (st, log)
        else (case event_effect p (eh_closures st) of (c, h, calls) \<Rightarrow>
                (\<lparr> eh_deps = event_deps_of p, eh_cleanup = c, eh_handler = h,
                   eh_closures = Suc (eh_closures st) \<rparr>,
                 log @ run_cleanup (eh_cleanup st) @ calls)))"

definition event_unmount :: "('e, 'c) event_hook \<times> call list \<Rightarrow> call list" where
  "event_unmount w = (case w of (st, log) \<Rightarrow> log @ run_cleanup (eh_cleanup st))"

fun event_rerenders ::
  "('e, 'c) event_props list \<Rightarrow> ('e, 'c) event_hook \<times> call list \<Rightarrow> ('e, 'c) event_hook \<times> call list" where
  "event_rerenders [] w = w"
| "event_rerenders (p # ps) w = event_rerenders ps (event_rerender p w)"

text \<open>
  The payment request \<open>h\<close> fires the event \<open>n\<close>: it calls the listeners registered on
  it for \<open>n\<close>, and of those the hook's current handler runs on the event.
\<close>

definition fire ::
  "('e, 'c) event_hook \<times> call list \<Rightarrow> ref \<Rightarrow> string \<Rightarrow> 'e \<Rightarrow> 'c handler_run list" where
  "fire w h n event =
     (case w of (st, log) \<Rightarrow>
        (case eh_handler st of
           None \<Rightarrow> []
         | Some (k, f) \<Rightarrow> map (\<lambda>k'. f event) (filter (\<lambda>k'. k' = k) (dispatch log h n))))"

section \<open>The payment and shipping protocols\<close>

text \<open>An event: its identity, which stands for its own \<^verbatim>\<open>complete\<close> or
  \<^verbatim>\<open>updateWith\<close>, and the data it carries.\<close>

record 'p event =
  ev_id :: ref
  payload :: 'p

text \<open>\<^verbatim>\<open>getPaymentCallback\<close>: the event's own \<^verbatim>\<open>complete\<close>.\<close>

definition getPaymentCallback :: "'p event \<Rightarrow> string \<Rightarrow> call" where
  "getPaymentCallback event status = Complete (ev_id event) status"

text \<open>
  \<^verbatim>\<open>onPaymentResponseChange\<close>: an \<^verbatim>\<open>async\<close> function around the caller's responder,
  which gets the event without \<^verbatim>\<open>complete\<close>; \<^verbatim>\<open>undefined\<close> when the caller gave
  none. \<^verbatim>\<open>useMemo\<close> makes a new function exactly when the caller's changes.
\<close>

definition payment_responder :: "('p \<Rightarrow> string invocation) \<Rightarrow> 'p event \<Rightarrow> string invocation" where
  "payment_responder raw event = async_fn (raw (payload event))"

definition onPaymentResponseChange ::
  "('p \<Rightarrow> string invocation) obj option \<Rightarrow> ('p event \<Rightarrow> string invocation) obj option" where
  "onPaymentResponseChange onPaymentResponseChangeRaw =
     map_option (\<lambda>raw. Obj (ref_of raw) (payment_responder (val_of raw)))
       onPaymentResponseChangeRaw"

text \<open>
  \<^verbatim>\<open>onShippingAddressChange\<close> and \<^verbatim>\<open>onShippingOptionChange\<close>: a plain function that
  hands the caller's responder the address or the option of the event.
\<close>

definition shipping_responder :: "('p \<Rightarrow> string invocation) \<Rightarrow> 'p event \<Rightarrow> string invocation" where
  "shipping_responder raw event = raw (payload event)"

definition onShippingChange ::
  "('p \<Rightarrow> string invocation) obj option \<Rightarrow> ('p event \<Rightarrow> string invocation) obj option" where
  "onShippingChange onShippingChangeRaw =
     map_option (\<lambda>raw. Obj (ref_of raw) (shipping_responder (val_of raw)))
       onShippingChangeRaw"

text \<open>
  \<^verbatim>\<open>usePaymentRequestShippingEvent\<close>. The options are
  \<^verbatim>\<open>Omit<PaymentRequestUpdateDetails, "status">\<close>. The flushing effect is a closure over
  the options, the event and the status of the render that scheduled it.
\<close>

record shipping_opts =
  sh_displayItems :: "payment_item list obj option"
  sh_shippingOptions :: "shipping_option list obj option"
  sh_total :: "payment_item obj option"

record 'p flush_closure =
  seen_opts :: shipping_opts
  seen_event :: "'p event option"
  seen_status :: "string option"

text \<open>
  What React keeps for the hook: the two state cells, the dependencies of the flushing
  effect at the last render, and the effect that render scheduled, until it has run.
\<close>

record 'p shipping_hook =
  pending_event :: "'p event option"
  pending_status :: "string option"
  flush_deps :: "dep list"
  scheduled :: "'p flush_closure option"

text \<open>\<^verbatim>\<open>getShippingCallback\<close>: the callback gives the event to \<^verbatim>\<open>setEvent\<close> and then
  the status to \<^verbatim>\<open>setStatus\<close>.\<close>

definition getShippingCallback :: "'p event \<Rightarrow> string \<Rightarrow> 'p event \<times> string" where
  "getShippingCallback event status = (event, status)"

definition flush_deps_of :: "shipping_opts \<Rightarrow> 'p shipping_hook \<Rightarrow> dep list" where
  "flush_deps_of opts st =
     [dep_of_obj (sh_displayItems opts),
      (case pending_event st of None \<Rightarrow> DUndefined | Some e \<Rightarrow> DObject (ev_id e)),
      dep_of_obj (sh_shippingOptions opts),
      dep_of_string (pending_status st),
      dep_of_obj (sh_total opts)]"

text \<open>
  The body of the flushing effect, on the values its closure holds. An absent event,
  an absent status and the empty string are falsy and end it at once. Otherwise it
  calls \<^verbatim>\<open>setEvent(undefined)\<close> and \<^verbatim>\<open>setStatus(undefined)\<close>, which React takes
  together as they are called inside an effect, and then the event's
  \<^verbatim>\<open>updateWith\<close>.
\<close>

definition flush :: "'p flush_closure \<Rightarrow> 'p shipping_hook \<Rightarrow> 'p shipping_hook \<times> call list" where
  "flush c st =
     (case seen_event c of
        None \<Rightarrow> (st, [])
      | Some event \<Rightarrow>
          (case seen_status c of
             None \<Rightarrow> (st, [])
           | Some status \<Rightarrow>
               if status = [] then (st, [])
               else
                 (st \<lparr> pending_event := None, pending_status := None \<rparr>,
                  [UpdateWith (ev_id event)
                     \<lparr> det_status = status,
                       det_data =
                         (if status = ''success''
                          then Some \<lparr> det_displayItems = sh_displayItems (seen_opts c),
                                      det_shippingOptions = sh_shippingOptions (seen_opts c),
                                      det_total = sh_total (seen_opts c) \<rparr>
                          else None) \<rparr>])))"

text \<open>
  React does not run an effect in the render that schedules it: it runs the effects
  still scheduled before it renders again, or when the thread falls idle.
\<close>

definition run_scheduled :: "'p shipping_hook \<Rightarrow> 'p shipping_hook \<times> call list" where
  "run_scheduled st =
     (case scheduled st of
        None \<Rightarrow> (st, [])
      | Some c \<Rightarrow> flush c (st \<lparr> scheduled := None \<rparr>))"

text \<open>
  A render of the hook with the caller's current options: the effect is scheduled when
  one of its dependencies changed, with the values of this render.
\<close>

definition shipping_render :: "shipping_opts \<Rightarrow> 'p shipping_hook \<Rightarrow> 'p shipping_hook \<times> call list" where
  "shipping_render opts st =
     (case run_scheduled st of (st', calls) \<Rightarrow>
        (if areHookInputsEqual (flush_deps_of opts st') (flush_deps st') then st'
         else st' \<lparr> flush_deps := flush_deps_of opts st',
                    scheduled := Some \<lparr> seen_opts = opts,
                                        seen_event = pending_event st',
                                        seen_status = pending_status st' \<rparr> \<rparr>,
         calls))"

text \<open>The first render: both cells empty, and the effect scheduled as on every mount.\<close>

definition shipping_mount :: "shipping_opts \<Rightarrow> 'p shipping_hook" where
  "shipping_mount opts =
     \<lparr> pending_event = None,
       pending_status = None,
       flush_deps =
         [dep_of_obj (sh_displayItems opts), DUndefined, dep_of_obj (sh_shippingOptions opts),
          DUndefined, dep_of_obj (sh_total opts)],
       scheduled = Some \<lparr> seen_opts = opts, seen_event = None, seen_status = None \<rparr> \<rparr>"

text \<open>
  The callback runs after the \<^verbatim>\<open>await\<close> of the handler, outside React's own
  handlers, and in the root the repository renders into each of its two setter calls
  is rendered at once, on its own. The setter's update is queued first; the effects
  still scheduled run before the render, so the setters an effect calls come later in
  the queue and prevail. The options are those the caller's component has at that
  render.
\<close>

definition setEvent ::
  "'p event \<Rightarrow> shipping_opts \<Rightarrow> 'p shipping_hook \<Rightarrow> 'p shipping_hook \<times> call list" where
  "setEvent event opts st = shipping_render opts (st \<lparr> pending_event := Some event \<rparr>)"

definition setStatus ::
  "string \<Rightarrow> shipping_opts \<Rightarrow> 'p shipping_hook \<Rightarrow> 'p shipping_hook \<times> call list" where
  "setStatus status opts st = shipping_render opts (st \<lparr> pending_status := Some status \<rparr>)"

definition shipping_callback ::
  "shipping_opts \<Rightarrow> shipping_opts \<Rightarrow> 'p event \<times> string \<Rightarrow>
   'p shipping_hook \<times> call list \<Rightarrow> 'p shipping_hook \<times> call list" where
  "shipping_callback opts_e opts_s c w =
     (case w of (st, log) \<Rightarrow>
        (case setEvent (fst c) opts_e st of (st1, calls1) \<Rightarrow>
           (case setStatus (snd c) opts_s st1 of (st2, calls2) \<Rightarrow>
              (st2, log @ calls1 @ calls2))))"

text \<open>
  A shipping event reaches the hook: the handler runs and its callback, if it is
  called, makes the two setter calls; \<open>opts_e\<close> and \<open>opts_s\<close> are the caller's options
  at the two renders.
\<close>

definition on_shipping_event ::
  "shipping_opts \<Rightarrow> shipping_opts \<Rightarrow> ('p event \<Rightarrow> string invocation) \<Rightarrow> 'p event \<Rightarrow>
   'p shipping_hook \<times> call list \<Rightarrow> 'p shipping_hook \<times> call list" where
  "on_shipping_event opts_e opts_s onEvent event w =
     fold (\<lambda>c. shipping_callback opts_e opts_s (snd c))
       (callbacks (handler getShippingCallback onEvent event)) w"

text \<open>
  The thread falls idle: the effects still scheduled run, and when they changed a
  state cell the hook renders again.
\<close>

definition settle ::
  "shipping_opts \<Rightarrow> 'p shipping_hook \<times> call list \<Rightarrow> 'p shipping_hook \<times> call list" where
  "settle opts w =
     (case w of (st, log) \<Rightarrow>
        (case run_scheduled st of (st', calls) \<Rightarrow>
           if pending_event st' = pending_event st \<and> pending_status st' = pending_status st
           then (st', log @ calls)
           else (case shipping_render opts st' of (st'', calls') \<Rightarrow>
                   (st'', log @ calls @ calls'))))"


text \<open>
  What \<^verbatim>\<open>usePaymentRequestPaymentEvent\<close> and \<^verbatim>\<open>usePaymentRequestShippingEvent\<close>
  hand to \<^verbatim>\<open>usePaymentRequestEventHandler\<close>; the five exported hooks call them with
  their event names. \<^verbatim>\<open>getPaymentCallback\<close> is a constant of the module and
  \<^verbatim>\<open>getShippingCallback\<close> a \<^verbatim>\<open>useCallback\<close> with no dependencies, so each keeps one
  identity.
\<close>

definition usePaymentRequestPaymentEvent ::
  "string \<Rightarrow> ref option \<Rightarrow> ('p \<Rightarrow> string invocation) obj option \<Rightarrow> ('p event, call) event_props" where
  "usePaymentRequestPaymentEvent eventName pr onPaymentResponseChangeRaw =
     EventProps eventName pr (Obj 0 getPaymentCallback)
       (onPaymentResponseChange onPaymentResponseChangeRaw)"

definition usePaymentRequestShippingEvent ::
  "string \<Rightarrow> ref option \<Rightarrow> ('p \<Rightarrow> string invocation) obj option \<Rightarrow>
   ('p event, 'p event \<times> string) event_props" where
  "usePaymentRequestShippingEvent eventName pr onShippingChangeRaw =
     EventProps eventName pr (Obj 0 getShippingCallback) (onShippingChange onShippingChangeRaw)"

section \<open>Properties of a run, for the proofs\<close>

text \<open>The constructor arguments hold the placeholders.\<close>

definition placeholders :: "ctor_args \<Rightarrow> bool" where
  "placeholders a \<longleftrightarrow>
     arg_currency a = ''usd'' \<and> arg_displayItems a = [] \<and> arg_shippingOptions a = []
     \<and> arg_total a = \<lparr> amount = 0, label = ''Total'', pending = Some True \<rparr>"

text \<open>
  The cleanup of the \<^verbatim>\<open>cancel\<close> effect holds the current payment request, and the
  log has left exactly its listener registered.
\<close>

definition subscribed :: "hook_state \<times> call list \<Rightarrow> bool" where
  "subscribed w \<longleftrightarrow>
     (case w of (st, log) \<Rightarrow>
        fst (cancel_sub st) = paymentRequest st
      \<and> cancel_deps st = cancel_deps_of (paymentRequest st)
      \<and> listeners log =
          (case paymentRequest st of
             None \<Rightarrow> []
           | Some h \<Rightarrow> [(h, ''cancel'', snd (cancel_sub st))]))"

section \<open>Concrete inputs\<close>

text \<open>The options, the mock factory and the events of the repository's tests.\<close>

definition test_options :: options where
  "test_options =
     \<lparr> country = ''US'',
       currency = ''cad'',
       disableWallets = Some (Obj 20 []),
       displayItems = Some (Obj 21 [\<lparr> amount = 75, label = ''An Item'', pending = None \<rparr>]),
       requestPayerEmail = None,
       requestPayerName = None,
       requestPayerPhone = None,
       requestShipping = None,
       shippingOptions =
         Some (Obj 22 [\<lparr> so_id = ''shipping'', so_label = ''Shipping'',
                         so_detail = ''This is shipping'', so_amount = 25 \<rparr>]),
       total = Obj 23 \<lparr> amount = 100, label = ''Total'', pending = None \<rparr> \<rparr>"

definition test_env :: environment where
  "test_env = \<lparr> factory = (\<lambda>r a n. 100 + n), has_abort = (\<lambda>h. True) \<rparr>"

definition not_showing :: "ref \<Rightarrow> bool" where
  "not_showing h = False"

definition now_showing :: "ref \<Rightarrow> bool" where
  "now_showing h = True"

definition can_pay :: async_state where
  "can_pay =
     \<lparr> probe_loading = False,
       probe_value = Some [(''applePay'', True), (''googlePay'', False)],
       probe_error = None \<rparr>"

definition still_loading :: async_state where
  "still_loading = \<lparr> probe_loading = True, probe_value = None, probe_error = None \<rparr>"

definition test_update_details :: shipping_opts where
  "test_update_details =
     \<lparr> sh_displayItems = None,
       sh_shippingOptions = None,
       sh_total = Some (Obj 23 \<lparr> amount = 100, label = ''Total'', pending = None \<rparr>) \<rparr>"

definition test_event :: "string event" where
  "test_event = \<lparr> ev_id = 7, payload = ''185 Berry St.'' \<rparr>"

definition resolves_success :: "string \<Rightarrow> string invocation" where
  "resolves_success x = Returns (Promised (FulfilsAt 10 ''success''))"

definition resolves_fail :: "string \<Rightarrow> string invocation" where
  "resolves_fail x = Returns (Promised (FulfilsAt 10 ''fail''))"


definition rejects_early :: "string \<Rightarrow> string invocation" where
  "rejects_early x = Returns (Promised (RejectsAt 100))"

definition throws_at_once :: "string \<Rightarrow> string invocation" where
  "throws_at_once x = Throws"

definition mounted_props :: props where
  "mounted_props = Props (Stripe 1) test_options"

text \<open>The same options with a new, equal array of disabled wallets.\<close>

definition new_wallets_props :: props where
  "new_wallets_props = Props (Stripe 1) (test_options \<lparr> disableWallets := Some (Obj 30 []) \<rparr>)"

text \<open>The last rerender of the test: only updatable parameters differ.\<close>

definition new_total_props :: props where
  "new_total_props =
     Props (Stripe 1)
       (test_options \<lparr> currency := ''usd'',
                       total := Obj 31 \<lparr> amount = 100000, label = ''Total'', pending = None \<rparr> \<rparr>)"

definition no_stripe_props :: props where
  "no_stripe_props = Props StripeUndefined test_options"

definition no_stripe_canada :: props where
  "no_stripe_canada = Props StripeUndefined (test_options \<lparr> country := ''CA'' \<rparr>)"

text \<open>The hook after \<^verbatim>\<open>setOpen(true)\<close> went through.\<close>

definition opened_world :: "hook_state \<times> call list" where
  "opened_world =
     exec test_env [SetOpen not_showing can_pay test_options (Literal True)]
       (mount test_env mounted_props)"

text \<open>The mounted hook rendered again after stripe became \<^verbatim>\<open>undefined\<close>.\<close>

definition stripe_gone_world :: "hook_state \<times> call list" where
  "stripe_gone_world = exec test_env [Rerender no_stripe_props] (mount test_env mounted_props)"


definition second_event :: "string event" where
  "second_event = \<lparr> ev_id = 8, payload = ''510 Townsend St.'' \<rparr>"

definition third_event :: "string event" where
  "third_event = \<lparr> ev_id = 9, payload = ''354 Oyster Point Blvd.'' \<rparr>"

text \<open>A hook that is never given a responder, rendered with two payment requests.\<close>

definition no_handler_renders :: "(string event, string event \<times> string) event_props list" where
  "no_handler_renders =
     [usePaymentRequestShippingEvent ''shippingaddresschange'' (Some 100) None,
      usePaymentRequestShippingEvent ''shippingaddresschange'' (Some 101) None]"

text \<open>The shipping hook of the tests, just mounted, and an empty log.\<close>

definition idle_hook :: "string shipping_hook \<times> call list" where
  "idle_hook = (shipping_mount test_update_details, [])"

text \<open>A hook for events that holds no subscription and has called nothing.\<close>

definition unsubscribed :: "('e, 'c) event_hook \<times> call list \<Rightarrow> bool" where
  "unsubscribed w \<longleftrightarrow>
     (case w of (st, log) \<Rightarrow> eh_cleanup st = Nothing \<and> eh_handler st = None \<and> log = [])"

section \<open>Renders and the constructor\<close>

lemma ctor_args_in_append: "ctor_args_in (xs @ ys) = ctor_args_in xs @ ctor_args_in ys"
  by (induction xs rule: ctor_args_in.induct) simp_all

lemma ctor_args_in_cancel_effect: "ctor_args_in (cancel_effect pr k) = []"
  by (simp add: cancel_effect_def split: option.splits)

lemma ctor_args_in_cancel_cleanup: "ctor_args_in (cancel_cleanup c) = []"
  by (simp add: cancel_cleanup_def split: prod.splits option.splits)

lemma construct_ctor_args:
  "ctor_args_in (snd (construct env p log)) = (if stripe_present p then [ctor_args_of (options_of p)] else [])"
  by (simp add: construct_def stripe_present_def options_of_def split: props.splits stripe.splits)

lemma areHookInputsEqual_memo:
  "areHookInputsEqual (memo_deps_of p) (memo_deps_of q) \<longleftrightarrow> memo_deps_of p = memo_deps_of q"
  by (simp add: memo_deps_of_def object_is_def split: props.splits)

lemma memo_deps_differ:
  "memo_deps_of q \<noteq> memo_deps_of p \<longleftrightarrow> identity_changed p q"
  by (auto simp add: memo_deps_of_def identity_changed_def dep_of_bool_def dep_of_obj_def dep_of_stripe_def
      split: props.splits option.splits stripe.splits)

lemma use_memo_ctor_args:
  "use_memo env p st log = (deps, pr, made) \<Longrightarrow>
   ctor_args_in made =
     (if areHookInputsEqual (memo_deps_of p) (memo_deps st) \<or> \<not> stripe_present p then []
      else [ctor_args_of (options_of p)])"
  using construct_ctor_args[of env p log]
  by (auto simp add: use_memo_def split: if_splits prod.splits)

lemma use_cancel_effect_ctor_args:
  "use_cancel_effect pr st = (st', effects) \<Longrightarrow> ctor_args_in effects = []"
  by (auto simp add: use_cancel_effect_def ctor_args_in_append ctor_args_in_cancel_effect
      ctor_args_in_cancel_cleanup split: if_splits)

lemma rerender_ctor_args:
  "ctor_args_in (snd (rerender env p w)) =
     ctor_args_in (snd w) @
       (if areHookInputsEqual (memo_deps_of p) (memo_deps (fst w)) \<or> \<not> stripe_present p then []
        else [ctor_args_of (options_of p)])"
proof -
  obtain st log where w: "w = (st, log)" by (cases w)
  obtain deps pr made where m: "use_memo env p st log = (deps, pr, made)"
    by (cases "use_memo env p st log")
  obtain st' effects where
    e: "use_cancel_effect pr (st \<lparr> memo_deps := deps, paymentRequest := pr \<rparr>) = (st', effects)"
    by (cases "use_cancel_effect pr (st \<lparr> memo_deps := deps, paymentRequest := pr \<rparr>)")
  show ?thesis
    using use_memo_ctor_args[OF m] use_cancel_effect_ctor_args[OF e]
    by (simp add: rerender_def w m e ctor_args_in_append)
qed

lemma use_cancel_effect_keeps:
  "use_cancel_effect pr st = (st', effects) \<Longrightarrow>
   memo_deps st' = memo_deps st \<and> paymentRequest st' = paymentRequest st \<and> opened st' = opened st"
  by (auto simp add: use_cancel_effect_def split: if_splits)

lemma rerender_memo_deps:
  assumes "memo_deps (fst w) = memo_deps_of q"
  shows "memo_deps (fst (rerender env p w)) = memo_deps_of p"
proof -
  obtain st log where w: "w = (st, log)" by (cases w)
  obtain deps pr made where m: "use_memo env p st log = (deps, pr, made)"
    by (cases "use_memo env p st log")
  obtain st' effects where
    e: "use_cancel_effect pr (st \<lparr> memo_deps := deps, paymentRequest := pr \<rparr>) = (st', effects)"
    by (cases "use_cancel_effect pr (st \<lparr> memo_deps := deps, paymentRequest := pr \<rparr>)")
  have "deps = memo_deps_of p"
    using m assms w by (auto simp add: use_memo_def areHookInputsEqual_memo split: if_splits prod.splits)
  moreover have "memo_deps st' = deps"
    using use_cancel_effect_keeps[OF e] by simp
  moreover have "fst (rerender env p w) = st'"
    by (simp add: rerender_def w m e)
  ultimately show ?thesis by simp
qed

lemma handle_fst_memo: "memo_deps (fst (handle r w)) = memo_deps (fst w)"
  by (simp add: handle_def commit_def split: prod.splits option.splits)

lemma fold_handle_memo: "memo_deps (fst (fold (\<lambda>k. handle r) ks w)) = memo_deps (fst w)"
  by (induction ks arbitrary: w) (simp_all add: handle_fst_memo)

lemma exec_memo_deps:
  "memo_deps (fst w) = memo_deps_of p \<Longrightarrow> memo_deps (fst (exec env as w)) = memo_deps_of (latest p as)"
proof (induction as arbitrary: w p)
  case Nil
  then show ?case by simp
next
  case (Cons a as)
  show ?case
  proof (cases a)
    case (Rerender q)
    with Cons show ?thesis by (simp add: step_def rerender_memo_deps)
  next
    case (SetOpen i pr opts oa)
    with Cons show ?thesis by (simp add: step_def handle_fst_memo)
  next
    case (Cancel h)
    with Cons show ?thesis by (simp add: step_def fold_handle_memo)
  qed
qed

lemma mount_memo_deps: "memo_deps (fst (mount env p)) = memo_deps_of p"
  by (simp add: mount_def split: prod.splits)

text \<open>
  Claim C1, as amended. After any history of renders, toggles and cancel events, a
  render whose props differ from the previous render's only in updatable parameters
  (currency, displayItems, shippingOptions, total) does not invoke
  \<^verbatim>\<open>stripe.paymentRequest\<close>. A render in which an identity-affecting parameter
  differs as \<^verbatim>\<open>Object.is\<close> sees it (country, disableWallets, one of the request
  flags, or the stripe reference) invokes it exactly once more when that render has a
  stripe object, and not at all when stripe is \<^verbatim>\<open>undefined\<close> or \<^verbatim>\<open>null\<close>. A new
  array of disabled wallets with the content of the old one is such a difference.
\<close>

theorem recreation_follows_identity:
  assumes "w = exec env as (mount env p0)"
  shows "(\<not> identity_changed (latest p0 as) p \<longrightarrow>
            ctor_count (snd (rerender env p w)) = ctor_count (snd w))
       \<and> (identity_changed (latest p0 as) p \<longrightarrow>
            ctor_count (snd (rerender env p w)) =
              ctor_count (snd w) + (if stripe_present p then 1 else 0))
       \<and> (latest p0 as = Props s opts
          \<and> p = Props s (opts \<lparr> currency := c, displayItems := d, shippingOptions := so, total := t \<rparr>)
          \<longrightarrow> \<not> identity_changed (latest p0 as) p)
       \<and> (disableWallets (options_of (latest p0 as)) = Some (Obj r ws)
          \<and> disableWallets (options_of p) = Some (Obj r' ws) \<and> r' \<noteq> r
          \<longrightarrow> identity_changed (latest p0 as) p)"
proof -
  have "memo_deps (fst w) = memo_deps_of (latest p0 as)"
    using assms exec_memo_deps[OF mount_memo_deps] by simp
  then have "areHookInputsEqual (memo_deps_of p) (memo_deps (fst w)) \<longleftrightarrow>
      \<not> identity_changed (latest p0 as) p"
    using memo_deps_differ[of p "latest p0 as"] by (auto simp add: areHookInputsEqual_memo)
  then have counts:
    "(\<not> identity_changed (latest p0 as) p \<longrightarrow>
        ctor_count (snd (rerender env p w)) = ctor_count (snd w))
     \<and> (identity_changed (latest p0 as) p \<longrightarrow>
        ctor_count (snd (rerender env p w)) =
          ctor_count (snd w) + (if stripe_present p then 1 else 0))"
    by (simp add: ctor_count_def rerender_ctor_args)
  have updatable:
    "latest p0 as = Props s opts
       \<and> p = Props s (opts \<lparr> currency := c, displayItems := d, shippingOptions := so, total := t \<rparr>)
     \<longrightarrow> \<not> identity_changed (latest p0 as) p"
    by (simp add: identity_changed_def)
  have deep:
    "disableWallets (options_of (latest p0 as)) = Some (Obj r ws)
       \<and> disableWallets (options_of p) = Some (Obj r' ws) \<and> r' \<noteq> r
     \<longrightarrow> identity_changed (latest p0 as) p"
    by (cases "latest p0 as"; cases p) (simp add: identity_changed_def options_of_def)
  show ?thesis
    using counts updatable deep by blast
qed

text \<open>
  Witness for C1: on the test's options with a stripe object, a new and equal
  \<^verbatim>\<open>disableWallets\<close> array constructs once more, and the test's change of currency
  and total constructs nothing.
\<close>

theorem recreation_follows_identity_witness:
  "identity_changed mounted_props new_wallets_props
   \<and> map_option val_of (disableWallets (options_of new_wallets_props)) =
       map_option val_of (disableWallets (options_of mounted_props))
   \<and> ctor_count (snd (rerender test_env new_wallets_props (mount test_env mounted_props))) =
       ctor_count (snd (mount test_env mounted_props)) + 1
   \<and> \<not> identity_changed mounted_props new_total_props
   \<and> ctor_count (snd (rerender test_env new_total_props (mount test_env mounted_props))) =
       ctor_count (snd (mount test_env mounted_props))"
proof -
  have a: "mount test_env mounted_props = exec test_env [] (mount test_env mounted_props)"
    by simp
  have b: "identity_changed mounted_props new_wallets_props"
    by (simp add: identity_changed_def mounted_props_def new_wallets_props_def test_options_def)
  have c: "\<not> identity_changed mounted_props new_total_props"
    by (simp add: identity_changed_def mounted_props_def new_total_props_def test_options_def)
  have d: "stripe_present new_wallets_props"
    by (simp add: stripe_present_def new_wallets_props_def)
  have e: "map_option val_of (disableWallets (options_of new_wallets_props)) =
       map_option val_of (disableWallets (options_of mounted_props))"
    by (simp add: options_of_def mounted_props_def new_wallets_props_def test_options_def)
  show ?thesis
    using b c d e
      recreation_follows_identity[OF a, of new_wallets_props]
      recreation_follows_identity[OF a, of new_total_props]
    by simp
qed

text \<open>
  Counterexample to C1 as stated: with stripe \<^verbatim>\<open>undefined\<close> the country changes from
  US to CA, an identity-affecting parameter, and the constructor has been invoked zero
  times before and zero times after.
\<close>

theorem recreation_without_stripe_counterexample:
  "country (options_of no_stripe_canada) \<noteq> country (options_of no_stripe_props)
   \<and> identity_changed no_stripe_props no_stripe_canada
   \<and> ctor_count (snd (mount test_env no_stripe_props)) = 0
   \<and> ctor_count (snd (rerender test_env no_stripe_canada (mount test_env no_stripe_props))) = 0"
  by (simp add: options_of_def identity_changed_def no_stripe_props_def no_stripe_canada_def
      test_options_def ctor_count_def mount_def construct_def rerender_def use_memo_def
      use_cancel_effect_def memo_deps_of_def object_is_def cancel_deps_of_def cancel_effect_def
      cancel_cleanup_def dep_of_ref_def)

section \<open>The placeholders\<close>

lemma ctor_args_in_setOpen: "ctor_args_in (cap_calls (setOpen env i c a)) = []"
  by (simp add: setOpen_def showing_calls_def ctor_args_in_append split: option.splits)

lemma handle_ctor_args:
  "ctor_args_in (cap_calls r) = [] \<Longrightarrow> ctor_args_in (snd (handle r w)) = ctor_args_in (snd w)"
  by (simp add: handle_def ctor_args_in_append split: prod.splits)

lemma fold_cancel_ctor_args:
  "ctor_args_in (snd (fold (\<lambda>k. handle cancel_handler) ks w)) = ctor_args_in (snd w)"
  by (induction ks arbitrary: w) (simp_all add: handle_ctor_args cancel_handler_def)

lemma placeholders_ctor_args_of: "placeholders (ctor_args_of opts)"
  by (simp add: placeholders_def ctor_args_of_def)

lemma step_placeholders:
  "list_all placeholders (ctor_args_in (snd w)) \<Longrightarrow>
   list_all placeholders (ctor_args_in (snd (step env a w)))"
  by (cases a)
     (simp_all add: step_def rerender_ctor_args handle_ctor_args ctor_args_in_setOpen
        fold_cancel_ctor_args placeholders_ctor_args_of)

lemma exec_placeholders:
  "list_all placeholders (ctor_args_in (snd w)) \<Longrightarrow>
   list_all placeholders (ctor_args_in (snd (exec env as w)))"
  by (induction as arbitrary: w) (simp_all add: step_placeholders)

lemma mount_ctor_args:
  "ctor_args_in (snd (mount env p)) = (if stripe_present p then [ctor_args_of (options_of p)] else [])"
  using construct_ctor_args[of env p "[]"]
  by (auto simp add: mount_def ctor_args_in_append ctor_args_in_cancel_effect split: prod.splits)

text \<open>
  Claim C9. Every argument object that any construction in the life of the hook hands
  to \<^verbatim>\<open>stripe.paymentRequest\<close> has currency \<^verbatim>\<open>"usd"\<close>, no display items, no shipping
  options and the total \<^verbatim>\<open>{amount: 0, label: "Total", pending: true}\<close>; and the
  arguments do not depend on the caller's currency, displayItems, shippingOptions and
  total.
\<close>

theorem constructor_gets_placeholders:
  "(a \<in> set (ctor_args_in (snd (exec env as (mount env p)))) \<longrightarrow>
      arg_currency a = ''usd'' \<and> arg_displayItems a = [] \<and> arg_shippingOptions a = []
      \<and> arg_total a = \<lparr> amount = 0, label = ''Total'', pending = Some True \<rparr>)
   \<and> ctor_args_of (opts \<lparr> currency := c, displayItems := d, shippingOptions := so, total := t \<rparr>)
       = ctor_args_of opts"
proof -
  have "list_all placeholders (ctor_args_in (snd (mount env p)))"
    by (simp add: mount_ctor_args placeholders_ctor_args_of)
  then have "list_all placeholders (ctor_args_in (snd (exec env as (mount env p))))"
    by (rule exec_placeholders)
  then have "a \<in> set (ctor_args_in (snd (exec env as (mount env p)))) \<longrightarrow> placeholders a"
    by (simp add: list_all_iff)
  then show ?thesis
    by (simp add: placeholders_def ctor_args_of_def)
qed

text \<open>
  Witness for C9: the test's options ask for \<^verbatim>\<open>"cad"\<close>, and the constructor call of
  the mount carries the placeholders.
\<close>

theorem constructor_gets_placeholders_witness:
  "ctor_args_of test_options \<in> set (ctor_args_in (snd (exec test_env [] (mount test_env mounted_props))))
   \<and> currency test_options = ''cad''
   \<and> arg_currency (ctor_args_of test_options) = ''usd''
   \<and> arg_displayItems (ctor_args_of test_options) = []
   \<and> arg_shippingOptions (ctor_args_of test_options) = []
   \<and> arg_total (ctor_args_of test_options) = \<lparr> amount = 0, label = ''Total'', pending = Some True \<rparr>"
proof -
  have a: "ctor_args_of test_options \<in> set (ctor_args_in (snd (exec test_env [] (mount test_env mounted_props))))"
    by (simp add: mount_def construct_def mounted_props_def ctor_args_in_append)
  show ?thesis
    using a constructor_gets_placeholders[of "ctor_args_of test_options" test_env "[]" mounted_props]
    by (simp add: test_options_def)
qed

section \<open>The open state and the toggle\<close>

lemma rerender_opened: "opened (fst (rerender env p w)) = opened (fst w)"
proof -
  obtain st log where w: "w = (st, log)" by (cases w)
  obtain deps pr made where m: "use_memo env p st log = (deps, pr, made)"
    by (cases "use_memo env p st log")
  obtain st' effects where
    e: "use_cancel_effect pr (st \<lparr> memo_deps := deps, paymentRequest := pr \<rparr>) = (st', effects)"
    by (cases "use_cancel_effect pr (st \<lparr> memo_deps := deps, paymentRequest := pr \<rparr>)")
  show ?thesis
    using use_cancel_effect_keeps[OF e] by (simp add: rerender_def w m e)
qed

lemma exec_rerenders_opened:
  "opened (fst (exec env (map Rerender ps) w)) = opened (fst w)"
  by (induction ps arbitrary: w) (simp_all add: step_def rerender_opened)

text \<open>
  Claim C10. After the mount and any number of further renders, with no
  \<^verbatim>\<open>setOpen\<close> call and no \<^verbatim>\<open>cancel\<close> event, the open state is false, and so is the
  value the returned closure holds, for every stripe, every options and every
  environment.
\<close>

theorem open_initially_false:
  "opened (fst (exec env (map Rerender ps) (mount env p))) = False
   \<and> c_open (setOpen_of probe opts (fst (exec env (map Rerender ps) (mount env p)))) = False"
  by (simp add: exec_rerenders_opened setOpen_of_def mount_def split: prod.splits)

text \<open>
  Claim C3. When the probe has no value, or the target equals the open state of the
  closure, or the target equals what \<^verbatim>\<open>isShowing()\<close> answers now, \<^verbatim>\<open>setOpen\<close> does
  not call \<^verbatim>\<open>setOpenRaw\<close>, leaves the hook's state as it was, and calls none of
  \<^verbatim>\<open>update\<close>, \<^verbatim>\<open>show\<close> and \<^verbatim>\<open>abort\<close>.
\<close>

theorem setOpen_guard:
  assumes "probe_value (c_canMakePayment c) = None
         \<or> newOpen c a = c_open c
         \<or> newOpen c a = showing isShowing c"
  shows "set_open_raw (setOpen env isShowing c a) = None
       \<and> commit (setOpen env isShowing c a) st = st
       \<and> filter is_mutation (cap_calls (setOpen env isShowing c a)) = []"
  using assms
  by (auto simp add: setOpen_def commit_def showing_calls_def is_mutation_def split: option.splits)

text \<open>
  Witness for C3: \<^verbatim>\<open>setOpen(true)\<close> while the probe is still loading, and
  \<^verbatim>\<open>setOpen(true)\<close> while the payment request says it is showing.
\<close>

theorem setOpen_guard_witness:
  "probe_value (c_canMakePayment (setOpen_of still_loading test_options (fst (mount test_env mounted_props)))) = None
   \<and> set_open_raw (setOpen test_env not_showing
        (setOpen_of still_loading test_options (fst (mount test_env mounted_props))) (Literal True)) = None
   \<and> filter is_mutation (cap_calls (setOpen test_env not_showing
        (setOpen_of still_loading test_options (fst (mount test_env mounted_props))) (Literal True))) = []
   \<and> newOpen (setOpen_of can_pay test_options (fst (mount test_env mounted_props))) (Literal True) =
        showing now_showing (setOpen_of can_pay test_options (fst (mount test_env mounted_props)))
   \<and> set_open_raw (setOpen test_env now_showing
        (setOpen_of can_pay test_options (fst (mount test_env mounted_props))) (Literal True)) = None
   \<and> filter is_mutation (cap_calls (setOpen test_env now_showing
        (setOpen_of can_pay test_options (fst (mount test_env mounted_props))) (Literal True))) = []"
proof -
  have a: "probe_value (c_canMakePayment (setOpen_of still_loading test_options (fst (mount test_env mounted_props)))) = None"
    by (simp add: setOpen_of_def still_loading_def)
  have p: "paymentRequest (fst (mount test_env mounted_props)) = Some 100"
    by (simp add: mount_def construct_def mounted_props_def test_env_def ctor_count_def)
  have b: "newOpen (setOpen_of can_pay test_options (fst (mount test_env mounted_props))) (Literal True) =
        showing now_showing (setOpen_of can_pay test_options (fst (mount test_env mounted_props)))"
    using p by (simp add: newOpen_def showing_def now_showing_def setOpen_of_def)
  show ?thesis
    using a b
      setOpen_guard[where c = "setOpen_of still_loading test_options (fst (mount test_env mounted_props))"
        and a = "Literal True" and isShowing = not_showing and env = test_env]
      setOpen_guard[where c = "setOpen_of can_pay test_options (fst (mount test_env mounted_props))"
        and a = "Literal True" and isShowing = now_showing and env = test_env]
    by simp
qed

text \<open>
  Claim C4, as amended. A call that passes the guard sets the open state to its
  target. When the closure holds the payment request \<open>h\<close>: towards open it calls,
  after the guard's \<^verbatim>\<open>isShowing\<close>, \<^verbatim>\<open>update\<close> with the caller's own currency,
  displayItems, shippingOptions and total and then \<^verbatim>\<open>show\<close>; towards closed it
  calls \<^verbatim>\<open>abort\<close> alone, or nothing where the payment request has no \<^verbatim>\<open>abort\<close>.
  When the closure holds no payment request, the call can only be one towards open,
  and it sets the open state true and calls nothing.
\<close>

theorem setOpen_transition:
  assumes "c = setOpen_of probe opts st"
      and "probe_value probe \<noteq> None"
      and "newOpen c a \<noteq> c_open c"
      and "newOpen c a \<noteq> showing isShowing c"
  shows "(paymentRequest st = Some h \<and> newOpen c a \<longrightarrow>
            opened (commit (setOpen env isShowing c a) st) = True
          \<and> cap_calls (setOpen env isShowing c a) =
              [IsShowing h,
               Update h \<lparr> upd_currency = currency opts, upd_displayItems = displayItems opts,
                          upd_shippingOptions = shippingOptions opts, upd_total = total opts \<rparr>,
               Show h])
       \<and> (paymentRequest st = Some h \<and> \<not> newOpen c a \<longrightarrow>
            opened (commit (setOpen env isShowing c a) st) = False
          \<and> cap_calls (setOpen env isShowing c a) =
              IsShowing h # (if has_abort env h then [Abort h] else []))
       \<and> (paymentRequest st = None \<longrightarrow>
            newOpen c a
          \<and> opened (commit (setOpen env isShowing c a) st) = True
          \<and> cap_calls (setOpen env isShowing c a) = [])"
proof -
  have fields:
    "c_paymentRequest c = paymentRequest st" "c_currency c = currency opts"
    "c_displayItems c = displayItems opts" "c_shippingOptions c = shippingOptions opts"
    "c_total c = total opts" "c_canMakePayment c = probe"
    using assms(1) by (simp_all add: setOpen_of_def)
  have passed: "setOpen env isShowing c a =
      \<lparr> set_open_raw = Some (newOpen c a),
        cap_calls = showing_calls c @
          (case paymentRequest st of
             None \<Rightarrow> []
           | Some h \<Rightarrow>
               if newOpen c a
               then [Update h \<lparr> upd_currency = currency opts, upd_displayItems = displayItems opts,
                               upd_shippingOptions = shippingOptions opts, upd_total = total opts \<rparr>,
                     Show h]
               else if has_abort env h then [Abort h] else []) \<rparr>"
    using assms(2,3,4) by (simp add: setOpen_def fields split: option.splits)
  show ?thesis
  proof (cases "paymentRequest st")
    case None
    then have "showing isShowing c = False"
      by (simp add: showing_def fields)
    then have "newOpen c a"
      using assms(4) by simp
    then show ?thesis
      using None by (simp add: passed commit_def showing_calls_def fields)
  next
    case (Some h')
    then show ?thesis
      by (simp add: passed commit_def showing_calls_def fields)
  qed
qed

text \<open>
  Witness for C4: the test's \<^verbatim>\<open>setOpen(true)\<close> with a resolved probe; \<^verbatim>\<open>update\<close>
  gets \<^verbatim>\<open>"cad"\<close> and the caller's items, then \<^verbatim>\<open>show\<close> is called.
\<close>

theorem setOpen_transition_witness:
  "paymentRequest (fst (mount test_env mounted_props)) = Some 100
   \<and> cap_calls (setOpen test_env not_showing
        (setOpen_of can_pay test_options (fst (mount test_env mounted_props))) (Literal True)) =
       [IsShowing 100,
        Update 100 \<lparr> upd_currency = ''cad'', upd_displayItems = displayItems test_options,
                     upd_shippingOptions = shippingOptions test_options,
                     upd_total = total test_options \<rparr>,
        Show 100]
   \<and> opened (commit (setOpen test_env not_showing
        (setOpen_of can_pay test_options (fst (mount test_env mounted_props))) (Literal True))
        (fst (mount test_env mounted_props))) = True"
proof -
  define st where "st = fst (mount test_env mounted_props)"
  define c where "c = setOpen_of can_pay test_options st"
  have a: "paymentRequest st = Some 100"
    by (simp add: st_def mount_def construct_def mounted_props_def test_env_def ctor_count_def)
  have b: "probe_value can_pay \<noteq> None"
    by (simp add: can_pay_def)
  have o: "c_open c = False"
    by (simp add: c_def setOpen_of_def st_def mount_def split: prod.splits)
  have n: "newOpen c (Literal True) = True"
    by (simp add: newOpen_def)
  have d: "newOpen c (Literal True) \<noteq> c_open c"
    using o n by simp
  have e: "newOpen c (Literal True) \<noteq> showing not_showing c"
    using n by (simp add: showing_def not_showing_def split: option.splits)
  show ?thesis
    using a n setOpen_transition[where c = c and probe = can_pay and opts = test_options
        and st = st and a = "Literal True" and isShowing = not_showing and h = 100
        and env = test_env, OF c_def b d e]
    by (simp add: st_def c_def test_options_def)
qed

text \<open>
  Counterexample to C4 as stated: the hook is mounted with a stripe object and then
  rendered with stripe \<^verbatim>\<open>undefined\<close>, so the memoised payment request is
  \<^verbatim>\<open>undefined\<close>, while \<^verbatim>\<open>useAsync\<close> still hands back the value of the earlier probe.
  \<^verbatim>\<open>setOpen(true)\<close> passes the guard and sets the open state true, and neither
  \<^verbatim>\<open>update\<close> nor \<^verbatim>\<open>show\<close> is called.
\<close>

theorem setOpen_without_handle_counterexample:
  "paymentRequest (fst stripe_gone_world) = None
   \<and> probe_value can_pay \<noteq> None
   \<and> newOpen (setOpen_of can_pay test_options (fst stripe_gone_world)) (Literal True) = True
   \<and> c_open (setOpen_of can_pay test_options (fst stripe_gone_world)) = False
   \<and> showing not_showing (setOpen_of can_pay test_options (fst stripe_gone_world)) = False
   \<and> set_open_raw (setOpen test_env not_showing
        (setOpen_of can_pay test_options (fst stripe_gone_world)) (Literal True)) = Some True
   \<and> cap_calls (setOpen test_env not_showing
        (setOpen_of can_pay test_options (fst stripe_gone_world)) (Literal True)) = []"
proof -
  have m: "mount test_env mounted_props =
      (\<lparr> memo_deps = memo_deps_of mounted_props, paymentRequest = Some 100, opened = False,
         cancel_deps = cancel_deps_of (Some 100), cancel_sub = (Some 100, 0), closures = 1 \<rparr>,
       [PaymentRequestCall 1 (ctor_args_of test_options), On 100 ''cancel'' 0])"
    by (simp add: mount_def construct_def mounted_props_def test_env_def ctor_count_def
        cancel_effect_def)
  have d: "\<not> areHookInputsEqual (memo_deps_of no_stripe_props) (memo_deps_of mounted_props)"
    by (simp add: memo_deps_of_def no_stripe_props_def mounted_props_def object_is_def
        dep_of_stripe_def)
  have p: "paymentRequest (fst stripe_gone_world) = None"
    using d
    by (simp add: stripe_gone_world_def step_def m rerender_def use_memo_def construct_def
        no_stripe_props_def use_cancel_effect_def split: prod.splits)
  have o: "opened (fst stripe_gone_world) = False"
    by (simp add: stripe_gone_world_def step_def rerender_opened m)
  show ?thesis
    using p o
    by (simp add: can_pay_def setOpen_def setOpen_of_def newOpen_def showing_def
        showing_calls_def not_showing_def)
qed

text \<open>
  With no payment request in the closure every optional chain of \<^verbatim>\<open>setOpen\<close> is
  skipped: a call that passes the guard sets the state and calls nothing.
\<close>

lemma setOpen_without_payment_request:
  assumes "c_paymentRequest c = None"
      and "probe_value (c_canMakePayment c) \<noteq> None"
      and "newOpen c a \<noteq> c_open c"
      and "newOpen c a"
  shows "setOpen env isShowing c a = \<lparr> set_open_raw = Some True, cap_calls = [] \<rparr>"
  using assms by (simp add: setOpen_def showing_def showing_calls_def)

section \<open>The listener of cancel\<close>

lemma listeners_append: "listeners (log @ cs) = foldl listeners_step (listeners log) cs"
  by (simp add: listeners_def)

lemma listeners_construct:
  "construct env p log = (pr, made) \<Longrightarrow> foldl listeners_step ls made = ls"
  by (auto simp add: construct_def listeners_step_def split: props.splits stripe.splits)

lemma listeners_setOpen: "foldl listeners_step ls (cap_calls (setOpen env i c a)) = ls"
  by (simp add: setOpen_def showing_calls_def listeners_step_def split: option.splits)

lemma cancel_deps_equal:
  "areHookInputsEqual (cancel_deps_of pr) (cancel_deps_of pr') \<longleftrightarrow> pr = pr'"
  by (auto simp add: cancel_deps_of_def object_is_def dep_of_ref_def split: option.splits)

lemma mount_subscribed: "subscribed (mount env p)"
proof -
  obtain pr made where c: "construct env p [] = (pr, made)" by (cases "construct env p []")
  have "listeners made = []"
    using listeners_construct[OF c, of "[]"] by (simp add: listeners_def)
  then show ?thesis
    by (simp add: subscribed_def mount_def c listeners_append cancel_effect_def
        listeners_step_def split: option.splits)
qed

lemma resubscribe:
  assumes "foldl listeners_step (listeners log) made = listeners log"
      and "listeners log = (case old of None \<Rightarrow> [] | Some h \<Rightarrow> [(h, ''cancel'', k)])"
  shows "listeners (log @ made @ cancel_cleanup (old, k) @ cancel_effect pr k') =
           (case pr of None \<Rightarrow> [] | Some h \<Rightarrow> [(h, ''cancel'', k')])"
  using assms
  by (simp add: listeners_append cancel_cleanup_def cancel_effect_def listeners_step_def
      split: option.splits)

lemma use_memo_listeners:
  "use_memo env p st log = (deps, pr, made) \<Longrightarrow> foldl listeners_step ls made = ls"
  using listeners_construct[of env p log _ _ ls]
  by (auto simp add: use_memo_def split: if_splits prod.splits)

lemma rerender_subscribed:
  assumes "subscribed w"
  shows "subscribed (rerender env p w)"
proof -
  obtain st log where w: "w = (st, log)" by (cases w)
  obtain deps pr made where m: "use_memo env p st log = (deps, pr, made)"
    by (cases "use_memo env p st log")
  have made: "foldl listeners_step (listeners log) made = listeners log"
    using use_memo_listeners[OF m] .
  obtain k where sub: "cancel_sub st = (paymentRequest st, k)"
    using assms w by (cases "cancel_sub st") (simp add: subscribed_def)
  have deps_st: "cancel_deps st = cancel_deps_of (paymentRequest st)"
    using assms w by (simp add: subscribed_def)
  have ls: "listeners log =
      (case paymentRequest st of None \<Rightarrow> [] | Some h \<Rightarrow> [(h, ''cancel'', k)])"
    using assms w sub by (simp add: subscribed_def cong: option.case_cong)
  show ?thesis
  proof (cases "pr = paymentRequest st")
    case True
    have "rerender env p w = (st \<lparr> memo_deps := deps, paymentRequest := pr \<rparr>, log @ made)"
      using True deps_st by (simp add: rerender_def w m use_cancel_effect_def cancel_deps_equal)
    then show ?thesis
      using True sub deps_st ls made
      by (simp add: subscribed_def listeners_append cong: option.case_cong)
  next
    case False
    have "rerender env p w =
        (st \<lparr> memo_deps := deps, paymentRequest := pr, cancel_deps := cancel_deps_of pr,
              cancel_sub := (pr, closures st), closures := Suc (closures st) \<rparr>,
         log @ made @ cancel_cleanup (paymentRequest st, k) @ cancel_effect pr (closures st))"
      using False deps_st sub by (simp add: rerender_def w m use_cancel_effect_def cancel_deps_equal)
    then show ?thesis
      using resubscribe[OF made ls, of pr "closures st"]
      by (simp add: subscribed_def cong: option.case_cong)
  qed
qed

lemma handle_subscribed:
  assumes "subscribed w" and "\<And>ls. foldl listeners_step ls (cap_calls r) = ls"
  shows "subscribed (handle r w)"
  using assms
  by (cases w) (simp add: subscribed_def handle_def commit_def listeners_append split: option.splits)

lemma fold_cancel_subscribed:
  "subscribed w \<Longrightarrow> subscribed (fold (\<lambda>k. handle cancel_handler) ks w)"
  by (induction ks arbitrary: w) (simp_all add: handle_subscribed cancel_handler_def)

lemma step_subscribed: "subscribed w \<Longrightarrow> subscribed (step env a w)"
  by (cases a)
     (simp_all add: step_def rerender_subscribed handle_subscribed listeners_setOpen
        fold_cancel_subscribed)

lemma exec_subscribed: "subscribed w \<Longrightarrow> subscribed (exec env as w)"
  by (induction as arbitrary: w) (simp_all add: step_subscribed)

text \<open>
  Claim C8. In every state the hook reaches with a payment request \<open>h\<close>: when \<open>h\<close>
  fires \<^verbatim>\<open>cancel\<close> the open state becomes false whatever it was, and the log of calls
  is unchanged, so neither \<^verbatim>\<open>isShowing\<close> nor \<^verbatim>\<open>abort\<close> nor anything else was called
  and the probe was not consulted; exactly one \<^verbatim>\<open>cancel\<close> listener is registered,
  on \<open>h\<close>; after any further render the only listener is on the payment request of that
  render, so a listener on a replaced one is gone; and after the unmount none is left.
\<close>

theorem cancel_closes:
  assumes "w = exec env as (mount env p)" and "paymentRequest (fst w) = Some h"
  shows "step env (Cancel h) w = ((fst w) \<lparr> opened := False \<rparr>, snd w)
       \<and> listeners (snd w) = [(h, ''cancel'', snd (cancel_sub (fst w)))]
       \<and> listeners (snd (rerender env q w)) =
           (case paymentRequest (fst (rerender env q w)) of
              None \<Rightarrow> []
            | Some h' \<Rightarrow> [(h', ''cancel'', snd (cancel_sub (fst (rerender env q w))))])
       \<and> listeners (unmount w) = []"
proof -
  obtain st log where w: "w = (st, log)" by (cases w)
  have sub: "subscribed w"
    using assms(1) exec_subscribed[OF mount_subscribed] by simp
  obtain k where cs: "cancel_sub st = (Some h, k)"
    using sub assms(2) w by (cases "cancel_sub st") (simp add: subscribed_def)
  have ls: "listeners log = [(h, ''cancel'', k)]"
    using sub assms(2) w cs by (simp add: subscribed_def split: option.splits)
  have "step env (Cancel h) w = (st \<lparr> opened := False \<rparr>, log)"
    by (simp add: w step_def dispatch_def ls handle_def commit_def cancel_handler_def)
  moreover have "listeners (unmount w) = []"
    by (simp add: w unmount_def listeners_append cancel_cleanup_def listeners_step_def cs ls)
  moreover have "listeners (snd (rerender env q w)) =
           (case paymentRequest (fst (rerender env q w)) of
              None \<Rightarrow> []
            | Some h' \<Rightarrow> [(h', ''cancel'', snd (cancel_sub (fst (rerender env q w))))])"
    using rerender_subscribed[OF sub, of env q]
    by (cases "rerender env q w") (simp add: subscribed_def cong: option.case_cong)
  ultimately show ?thesis using ls cs w by simp
qed

text \<open>
  Witness for C8: the hook of the tests, opened by \<^verbatim>\<open>setOpen(true)\<close>, receives
  \<^verbatim>\<open>cancel\<close> on its payment request.
\<close>

theorem cancel_closes_witness:
  "paymentRequest (fst opened_world) = Some 100
   \<and> opened (fst opened_world) = True
   \<and> opened (fst (step test_env (Cancel 100) opened_world)) = False
   \<and> snd (step test_env (Cancel 100) opened_world) = snd opened_world
   \<and> listeners (snd opened_world) = [(100, ''cancel'', 0)]
   \<and> listeners (unmount opened_world) = []"
proof -
  have m: "mount test_env mounted_props =
      (\<lparr> memo_deps = memo_deps_of mounted_props, paymentRequest = Some 100, opened = False,
         cancel_deps = cancel_deps_of (Some 100), cancel_sub = (Some 100, 0), closures = 1 \<rparr>,
       [PaymentRequestCall 1 (ctor_args_of test_options), On 100 ''cancel'' 0])"
    by (simp add: mount_def construct_def mounted_props_def test_env_def ctor_count_def
        cancel_effect_def)
  have w: "opened_world = exec test_env [SetOpen not_showing can_pay test_options (Literal True)]
       (mount test_env mounted_props)"
    by (simp add: opened_world_def)
  have a: "paymentRequest (fst opened_world) = Some 100"
    by (simp add: opened_world_def m step_def handle_def commit_def split: option.splits)
  have b: "opened (fst opened_world) = True"
    by (simp add: opened_world_def m step_def handle_def commit_def setOpen_def setOpen_of_def
        can_pay_def newOpen_def showing_def not_showing_def)
  have k: "snd (cancel_sub (fst opened_world)) = 0"
    by (simp add: opened_world_def m step_def handle_def commit_def split: option.splits)
  show ?thesis
    using a b k cancel_closes[OF w a] by simp
qed

section \<open>The race of a responder against the timer\<close>



lemma handler_rejected:
  "onEvent event = Returns r \<Longrightarrow> to_promise r = RejectsAt t \<Longrightarrow>
   handler getCallback onEvent event =
     \<lparr> settled = FulfilsAt 2000 (), callbacks = [(2000, getCallback event ''fail'')] \<rparr>"
  by (simp add: handler_def promise_any_def)


lemma handler_throws:
  "onEvent event = Throws \<Longrightarrow>
   handler getCallback onEvent event = \<lparr> settled = RejectsAt 0, callbacks = [] \<rparr>"
  by (simp add: handler_def)

lemma handler_calls_back_at_most_once: "length (callbacks (handler getCallback onEvent event)) \<le> 1"
  by (simp add: handler_def promise_any_def split: invocation.splits promise.splits option.splits prod.splits)

lemma handler_returns_calls_back:
  "onEvent event = Returns r \<Longrightarrow> \<exists>t s. callbacks (handler getCallback onEvent event) = [(t, getCallback event s)]"
  by (cases "to_promise r") (auto simp add: handler_def promise_any_def)



text \<open>
  Claim C6, as amended. A rejection of the promise a responder returned is passed over
  by \<^verbatim>\<open>Promise.any\<close>: the handler does not catch, log or wrap it, and it does not
  propagate either; the timer wins, the completion callback is called once with
  \<^verbatim>\<open>"fail"\<close> at 2000 ms and the handler's own promise is fulfilled. Only a throw out
  of the responder's invocation itself rejects the handler's promise with the callback
  never called; the shipping hooks can see one, and the payment hooks cannot, since
  their \<^verbatim>\<open>async\<close> wrapper turns the throw into a rejection.
\<close>

theorem rejection_is_absorbed:
  "(onEvent event = Returns r \<and> to_promise r = RejectsAt t \<longrightarrow>
      handler getCallback onEvent event =
        \<lparr> settled = FulfilsAt 2000 (), callbacks = [(2000, getCallback event ''fail'')] \<rparr>)
   \<and> (onEvent event = Throws \<longrightarrow>
        handler getCallback onEvent event = \<lparr> settled = RejectsAt 0, callbacks = [] \<rparr>)
   \<and> (raw (payload pevent) = Throws \<longrightarrow>
        handler getPaymentCallback (payment_responder raw) pevent =
          \<lparr> settled = FulfilsAt 2000 (),
            callbacks = [(2000, Complete (ev_id pevent) ''fail'')] \<rparr>)
   \<and> (raw' (payload sevent) = Throws \<longrightarrow>
        handler getShippingCallback (shipping_responder raw') sevent =
          \<lparr> settled = RejectsAt 0, callbacks = [] \<rparr>)"
proof -
  have "raw (payload pevent) = Throws \<Longrightarrow>
        handler getPaymentCallback (payment_responder raw) pevent =
          \<lparr> settled = FulfilsAt 2000 (),
            callbacks = [(2000, Complete (ev_id pevent) ''fail'')] \<rparr>"
    using handler_rejected[of "payment_responder raw" pevent "Promised (RejectsAt 0)" 0 getPaymentCallback]
    by (simp add: payment_responder_def async_fn_def to_promise_def getPaymentCallback_def)
  moreover have "raw' (payload sevent) = Throws \<Longrightarrow>
        handler getShippingCallback (shipping_responder raw') sevent =
          \<lparr> settled = RejectsAt 0, callbacks = [] \<rparr>"
    using handler_throws[of "shipping_responder raw'" sevent getShippingCallback]
    by (simp add: shipping_responder_def)
  ultimately show ?thesis
    using handler_rejected[of onEvent event r t getCallback] handler_throws[of onEvent event getCallback]
    by blast
qed

text \<open>
  Witness for C6: a shipping responder whose promise rejects after 100 ms, and one that
  throws at once, under both kinds of hook.
\<close>

theorem rejection_is_absorbed_witness:
  "shipping_responder rejects_early test_event = Returns (Promised (RejectsAt 100))
   \<and> handler getShippingCallback (shipping_responder rejects_early) test_event =
        \<lparr> settled = FulfilsAt 2000 (), callbacks = [(2000, (test_event, ''fail''))] \<rparr>
   \<and> shipping_responder throws_at_once test_event = Throws
   \<and> handler getShippingCallback (shipping_responder throws_at_once) test_event =
        \<lparr> settled = RejectsAt 0, callbacks = [] \<rparr>
   \<and> handler getPaymentCallback (payment_responder throws_at_once) test_event =
        \<lparr> settled = FulfilsAt 2000 (), callbacks = [(2000, Complete 7 ''fail'')] \<rparr>"
proof -
  have a: "shipping_responder rejects_early test_event = Returns (Promised (RejectsAt 100))"
    by (simp add: shipping_responder_def rejects_early_def)
  have b: "shipping_responder throws_at_once test_event = Throws"
    by (simp add: shipping_responder_def throws_at_once_def)
  have c: "throws_at_once (payload test_event) = Throws"
    by (simp add: throws_at_once_def)
  have d: "to_promise (Promised (RejectsAt 100) :: string returned) = RejectsAt 100"
    by (simp add: to_promise_def)
  show ?thesis
    using a b c d
      rejection_is_absorbed[of "shipping_responder rejects_early" test_event
        "Promised (RejectsAt 100)" 100 getShippingCallback throws_at_once test_event
        throws_at_once test_event]
      rejection_is_absorbed[of "shipping_responder throws_at_once" test_event
        "Promised (RejectsAt 100)" 100 getShippingCallback throws_at_once test_event
        throws_at_once test_event]
    by (simp add: getShippingCallback_def test_event_def)
qed

text \<open>
  Counterexample to C6 as stated: the promise of a payment responder rejects after
  100 ms, before the timer; the handler's promise is fulfilled, not rejected, and
  \<^verbatim>\<open>complete\<close> is called with the substituted status \<^verbatim>\<open>"fail"\<close>.
\<close>

theorem rejection_propagates_counterexample:
  "payment_responder rejects_early test_event = Returns (Promised (RejectsAt 100))
   \<and> settled (handler getPaymentCallback (payment_responder rejects_early) test_event) = FulfilsAt 2000 ()
   \<and> callbacks (handler getPaymentCallback (payment_responder rejects_early) test_event) =
        [(2000, Complete 7 ''fail'')]"
  by (simp add: handler_def promise_any_def payment_responder_def rejects_early_def async_fn_def
      to_promise_def getPaymentCallback_def test_event_def)

section \<open>No responder, no subscription\<close>

lemma event_effect_no_responder:
  "responder_of p = None \<Longrightarrow> event_effect p k = (Nothing, None, [])"
  by (simp add: responder_of_def event_effect_def split: event_props.splits)

lemma event_mount_unsubscribed: "responder_of p = None \<Longrightarrow> unsubscribed (event_mount p)"
  by (simp add: unsubscribed_def event_mount_def event_effect_no_responder)

lemma event_rerender_unsubscribed:
  "responder_of p = None \<Longrightarrow> unsubscribed w \<Longrightarrow> unsubscribed (event_rerender p w)"
  by (cases w)
     (simp add: unsubscribed_def event_rerender_def event_effect_no_responder run_cleanup_def)

lemma event_rerenders_unsubscribed:
  "list_all (\<lambda>p. responder_of p = None) ps \<Longrightarrow> unsubscribed w \<Longrightarrow>
   unsubscribed (event_rerenders ps w)"
  by (induction ps arbitrary: w) (simp_all add: event_rerender_unsubscribed)

text \<open>The exported hooks hand on \<^verbatim>\<open>undefined\<close> when their responder is omitted.\<close>

lemma omitted_responder:
  "responder_of (usePaymentRequestPaymentEvent n pr None) = None"
  "responder_of (usePaymentRequestShippingEvent n pr None) = None"
  by (simp_all add: responder_of_def usePaymentRequestPaymentEvent_def
      usePaymentRequestShippingEvent_def onPaymentResponseChange_def onShippingChange_def)

text \<open>
  Claim C7. A hook whose responder is omitted in every render calls neither \<^verbatim>\<open>on\<close>
  nor \<^verbatim>\<open>off\<close>, nor anything else, through its mount, its later renders and its
  unmount, whatever the event name and the payment request; and whatever event a
  payment request fires, no handler of the hook runs, so no completion callback is
  called.
\<close>

theorem no_responder_no_subscription:
  assumes "list_all (\<lambda>p. responder_of p = None) (p # ps)"
  shows "snd (event_rerenders ps (event_mount p)) = []
       \<and> event_unmount (event_rerenders ps (event_mount p)) = []
       \<and> fire (event_rerenders ps (event_mount p)) h n event = []"
proof -
  have "unsubscribed (event_rerenders ps (event_mount p))"
    using assms by (simp add: event_rerenders_unsubscribed event_mount_unsubscribed)
  then show ?thesis
    by (cases "event_rerenders ps (event_mount p)")
       (simp add: unsubscribed_def event_unmount_def run_cleanup_def fire_def)
qed

text \<open>
  Witness for C7: the shipping-address hook without a responder, rendered with one
  payment request and then another.
\<close>

theorem no_responder_no_subscription_witness:
  "list_all (\<lambda>p. responder_of p = None) no_handler_renders
   \<and> snd (event_rerenders (tl no_handler_renders) (event_mount (hd no_handler_renders))) = []
   \<and> event_unmount (event_rerenders (tl no_handler_renders) (event_mount (hd no_handler_renders))) = []
   \<and> fire (event_rerenders (tl no_handler_renders) (event_mount (hd no_handler_renders)))
        101 ''shippingaddresschange'' test_event = []"
proof -
  have a: "list_all (\<lambda>p. responder_of p = None) (hd no_handler_renders # tl no_handler_renders)"
    by (simp add: no_handler_renders_def responder_of_def usePaymentRequestShippingEvent_def
        onShippingChange_def)
  have b: "hd no_handler_renders # tl no_handler_renders = no_handler_renders"
    by (simp add: no_handler_renders_def)
  show ?thesis
    using a b no_responder_no_subscription[where p = "hd no_handler_renders"
        and ps = "tl no_handler_renders" and h = 101 and n = "''shippingaddresschange''"
        and event = test_event]
    by simp
qed

section \<open>The deferred flush of a shipping event\<close>









text \<open>The definitions a concrete round trip unfolds.\<close>

lemmas shipping_eval =
  settle_def on_shipping_event_def shipping_callback_def setEvent_def setStatus_def
  shipping_render_def run_scheduled_def flush_def flush_deps_of_def shipping_mount_def
  handler_def promise_any_def to_promise_def getShippingCallback_def shipping_responder_def
  object_is_def dep_of_string_def dep_of_obj_def


text \<open>
  Outside a hook at rest the round trip can go otherwise. When the callback of
  a second event runs before the flush scheduled for the first has run, the flush
  answers the first event and its clearing of the cells, queued after
  \<^verbatim>\<open>setEvent\<close> of the second, prevails: the second event is never answered and its
  status stays in its cell. A third event then rendered with that status is answered
  with it, whatever its own responder resolves.
\<close>

lemma second_event_before_flush:
  "snd (settle test_update_details
     (on_shipping_event test_update_details test_update_details
        (shipping_responder resolves_fail) second_event
        (on_shipping_event test_update_details test_update_details
           (shipping_responder resolves_success) test_event idle_hook))) =
     [UpdateWith 7
        \<lparr> det_status = ''success'',
          det_data = Some \<lparr> det_displayItems = None, det_shippingOptions = None,
                            det_total = Some (Obj 23 \<lparr> amount = 100, label = ''Total'', pending = None \<rparr>) \<rparr> \<rparr>]"
  "pending_event (fst (settle test_update_details
     (on_shipping_event test_update_details test_update_details
        (shipping_responder resolves_fail) second_event
        (on_shipping_event test_update_details test_update_details
           (shipping_responder resolves_success) test_event idle_hook)))) = None"
  "pending_status (fst (settle test_update_details
     (on_shipping_event test_update_details test_update_details
        (shipping_responder resolves_fail) second_event
        (on_shipping_event test_update_details test_update_details
           (shipping_responder resolves_success) test_event idle_hook)))) = Some ''fail''"
  by (simp_all add: idle_hook_def resolves_success_def resolves_fail_def test_event_def
      second_event_def test_update_details_def shipping_eval)

lemma status_left_behind:
  "snd (settle test_update_details
     (on_shipping_event test_update_details test_update_details
        (shipping_responder resolves_success) third_event
        (settle test_update_details
           (on_shipping_event test_update_details test_update_details
              (shipping_responder resolves_fail) second_event
              (on_shipping_event test_update_details test_update_details
                 (shipping_responder resolves_success) test_event idle_hook))))) =
     [UpdateWith 7
        \<lparr> det_status = ''success'',
          det_data = Some \<lparr> det_displayItems = None, det_shippingOptions = None,
                            det_total = Some (Obj 23 \<lparr> amount = 100, label = ''Total'', pending = None \<rparr>) \<rparr> \<rparr>,
      UpdateWith 9 \<lparr> det_status = ''fail'', det_data = None \<rparr>]"
  by (simp add: idle_hook_def resolves_success_def resolves_fail_def test_event_def
      second_event_def third_event_def test_update_details_def shipping_eval)

end
